theory Spec2Isabelle
  imports Main
begin

section \<open>Raw memory, element types and outcomes\<close>

text \<open>
  \<^verbatim>\<open>vector.h\<close> builds a growable array on raw memory. A buffer is a list of slots:
  a slot is raw (no object lives there) or holds a live object of the element type.
\<close>

datatype 'a slot = Raw | Obj 'a

text \<open>
  What a call can end in besides returning: undefined behaviour (an access outside the
  buffer, the use or destruction of an object that is not there, an invalid range),
  a failed \<^verbatim>\<open>assert\<close> (the build with assertions enabled is the one modelled), or an
  exception that leaves the function, with the state it leaves behind.
\<close>

datatype 's error = Undefined_Behaviour | Assertion_Failed | Thrown 's

definition and_then :: "'s error + 'a \<Rightarrow> ('a \<Rightarrow> 's error + 'b) \<Rightarrow> 's error + 'b" where
  "and_then r f = (case r of Inl e \<Rightarrow> Inl e | Inr x \<Rightarrow> f x)"

text \<open>\<^verbatim>\<open>try { body } catch (...) { handler }\<close>: only an exception reaches the handler.\<close>

definition try_catch :: "'s error + 'a \<Rightarrow> ('s \<Rightarrow> 't error + 'a) \<Rightarrow> 't error + 'a" where
  "try_catch body handler =
     (case body of
        Inr x \<Rightarrow> Inr x
      | Inl (Thrown s) \<Rightarrow> handler s
      | Inl Undefined_Behaviour \<Rightarrow> Inl Undefined_Behaviour
      | Inl Assertion_Failed \<Rightarrow> Inl Assertion_Failed)"

text \<open>
  An exception that leaves a function unwinds its frame: the state the exception
  carries is rebuilt for the caller.
\<close>

definition unwind :: "('s \<Rightarrow> 't) \<Rightarrow> 's error + 'a \<Rightarrow> 't error + 'a" where
  "unwind f r =
     (case r of
        Inr x \<Rightarrow> Inr x
      | Inl (Thrown s) \<Rightarrow> Inl (Thrown (f s))
      | Inl Undefined_Behaviour \<Rightarrow> Inl Undefined_Behaviour
      | Inl Assertion_Failed \<Rightarrow> Inl Assertion_Failed)"

text \<open>
  \<^verbatim>\<open>size_t\<close> is taken as 64 bits wide; sizes are naturals and \<open>size_t\<close> is the
  conversion of an integer result to the type, so that every wrap-around is written out.
\<close>

definition size_t :: "int \<Rightarrow> nat" where
  "size_t i = nat (i mod 2 ^ 64)"

text \<open>
  The element type \<^verbatim>\<open>T\<close> of the templates, as far as the code uses it: the value of
  \<^verbatim>\<open>T()\<close> (\<open>None\<close> when that constructor throws), the values on which the copy
  and the move constructor throw, the state a moved-from object is left in, and the
  compile-time condition of the \<^verbatim>\<open>if constexpr\<close> in the source,
  \<^verbatim>\<open>is_nothrow_move_constructible_v<T> || !is_copy_constructible_v<T>\<close>.
  A copy is equal to its source and a move carries the value over. Assignment and
  destruction are taken not to throw, and allocation to succeed.
\<close>

record 'a T_class =
  value_init :: "'a option"
  copy_throws :: "'a \<Rightarrow> bool"
  move_throws :: "'a \<Rightarrow> bool"
  moved_from :: "'a \<Rightarrow> 'a"
  nothrow_move_or_no_copy :: bool

text \<open>
  A \<^verbatim>\<open>T*\<close> into a buffer is its offset from the start of the buffer. A pointer may
  point one past the end of the buffer, but only a slot of the buffer can be read or
  written. A constructor that throws has not written to its slot yet.
\<close>

definition in_buf :: "'a slot list \<Rightarrow> int \<Rightarrow> bool" where
  "in_buf m p \<longleftrightarrow> 0 \<le> p \<and> p < int (length m)"

definition valid_ptr :: "'a slot list \<Rightarrow> int \<Rightarrow> bool" where
  "valid_ptr m p \<longleftrightarrow> 0 \<le> p \<and> p \<le> int (length m)"

definition load :: "'a slot list \<Rightarrow> int \<Rightarrow> 'a option" where
  "load m p =
     (if in_buf m p then (case m ! nat p of Raw \<Rightarrow> None | Obj x \<Rightarrow> Some x) else None)"

subsection \<open>The standard algorithms the source calls\<close>

text \<open>
  Modelled from the spec: the bulk range utilities of section 6 (\<^verbatim>\<open>std::destroy_n\<close>,
  \<^verbatim>\<open>std::uninitialized_value_construct_n\<close>, \<^verbatim>\<open>std::uninitialized_copy_n\<close>,
  \<^verbatim>\<open>std::uninitialized_move_n\<close>, \<^verbatim>\<open>std::move\<close>, \<^verbatim>\<open>std::move_backward\<close>) belong to the
  standard library and not to the repository. Each has the semantics its name implies and
  propagates the first constructor failure; the uninitialized algorithms destroy what
  they had constructed before they let the exception out.
\<close>

fun destroy_n :: "'a slot list \<Rightarrow> int \<Rightarrow> nat \<Rightarrow> 's error + 'a slot list" where
  "destroy_n m p 0 = Inr m"
| "destroy_n m p (Suc n) =
     (case load m p of
        None \<Rightarrow> Inl Undefined_Behaviour
      | Some x \<Rightarrow> destroy_n (m[nat p := Raw]) (p + 1) n)"

fun uninitialized_value_construct_n ::
  "'a T_class \<Rightarrow> 'a slot list \<Rightarrow> int \<Rightarrow> nat \<Rightarrow> 'a slot list error + 'a slot list" where
  "uninitialized_value_construct_n T m p 0 = Inr m"
| "uninitialized_value_construct_n T m p (Suc n) =
     (if \<not> valid_ptr m p then Inl Undefined_Behaviour
      else case value_init T of
        None \<Rightarrow> Inl (Thrown m)
      | Some x \<Rightarrow>
          if \<not> in_buf m p then Inl Undefined_Behaviour
          else (case uninitialized_value_construct_n T (m[nat p := Obj x]) (p + 1) n of
                  Inl (Thrown m') \<Rightarrow> Inl (Thrown (m'[nat p := Raw]))
                | r \<Rightarrow> r))"

fun uninitialized_copy_n ::
  "'a T_class \<Rightarrow> 'a slot list \<Rightarrow> int \<Rightarrow> nat \<Rightarrow> 'a slot list \<Rightarrow> int
     \<Rightarrow> 'a slot list error + 'a slot list" where
  "uninitialized_copy_n T src first 0 dst d_first = Inr dst"
| "uninitialized_copy_n T src first (Suc n) dst d_first =
     (case load src first of
        None \<Rightarrow> Inl Undefined_Behaviour
      | Some x \<Rightarrow>
          if \<not> valid_ptr dst d_first then Inl Undefined_Behaviour
          else if copy_throws T x then Inl (Thrown dst)
          else if \<not> in_buf dst d_first then Inl Undefined_Behaviour
          else (case uninitialized_copy_n T src (first + 1) n
                       (dst[nat d_first := Obj x]) (d_first + 1) of
                  Inl (Thrown dst') \<Rightarrow> Inl (Thrown (dst'[nat d_first := Raw]))
                | r \<Rightarrow> r))"

fun uninitialized_move_n ::
  "'a T_class \<Rightarrow> 'a slot list \<Rightarrow> int \<Rightarrow> nat \<Rightarrow> 'a slot list \<Rightarrow> int
     \<Rightarrow> ('a slot list \<times> 'a slot list) error + ('a slot list \<times> 'a slot list)" where
  "uninitialized_move_n T src first 0 dst d_first = Inr (src, dst)"
| "uninitialized_move_n T src first (Suc n) dst d_first =
     (case load src first of
        None \<Rightarrow> Inl Undefined_Behaviour
      | Some x \<Rightarrow>
          if \<not> valid_ptr dst d_first then Inl Undefined_Behaviour
          else if move_throws T x then Inl (Thrown (src, dst))
          else if \<not> in_buf dst d_first then Inl Undefined_Behaviour
          else (case uninitialized_move_n T (src[nat first := Obj (moved_from T x)])
                       (first + 1) n (dst[nat d_first := Obj x]) (d_first + 1) of
                  Inl (Thrown (src', dst')) \<Rightarrow> Inl (Thrown (src', dst'[nat d_first := Raw]))
                | r \<Rightarrow> r))"

text \<open>
  \<^verbatim>\<open>std::move(first, last, d_first)\<close> and \<^verbatim>\<open>std::move_backward(first, last, d_last)\<close>
  inside one buffer: move assignment, element by element, forwards and backwards.
  Both ends of an assignment are live objects; an end before the start is no range.
\<close>

fun move_n :: "'a T_class \<Rightarrow> 'a slot list \<Rightarrow> int \<Rightarrow> nat \<Rightarrow> int \<Rightarrow> 's error + 'a slot list" where
  "move_n T m first 0 d_first = Inr m"
| "move_n T m first (Suc n) d_first =
     (case load m first of
        None \<Rightarrow> Inl Undefined_Behaviour
      | Some x \<Rightarrow>
          if load m d_first = None then Inl Undefined_Behaviour
          else move_n T (m[nat d_first := Obj x, nat first := Obj (moved_from T x)])
                 (first + 1) n (d_first + 1))"

definition std_move ::
  "'a T_class \<Rightarrow> 'a slot list \<Rightarrow> int \<Rightarrow> int \<Rightarrow> int \<Rightarrow> 's error + 'a slot list" where
  "std_move T m first lst d_first =
     (if lst < first then Inl Undefined_Behaviour
      else move_n T m first (nat (lst - first)) d_first)"

fun move_backward_n ::
  "'a T_class \<Rightarrow> 'a slot list \<Rightarrow> int \<Rightarrow> nat \<Rightarrow> int \<Rightarrow> 's error + 'a slot list" where
  "move_backward_n T m lst 0 d_last = Inr m"
| "move_backward_n T m lst (Suc n) d_last =
     (case load m (lst - 1) of
        None \<Rightarrow> Inl Undefined_Behaviour
      | Some x \<Rightarrow>
          if load m (d_last - 1) = None then Inl Undefined_Behaviour
          else move_backward_n T
                 (m[nat (d_last - 1) := Obj x, nat (lst - 1) := Obj (moved_from T x)])
                 (lst - 1) n (d_last - 1))"

definition std_move_backward ::
  "'a T_class \<Rightarrow> 'a slot list \<Rightarrow> int \<Rightarrow> int \<Rightarrow> int \<Rightarrow> 's error + 'a slot list" where
  "std_move_backward T m first lst d_last =
     (if lst < first then Inl Undefined_Behaviour
      else move_backward_n T m lst (nat (lst - first)) d_last)"

section \<open>RawMemory\<close>

text \<open>
  The members \<^verbatim>\<open>buffer_\<close>, \<^verbatim>\<open>capacity_\<close>, \<^verbatim>\<open>data_\<close> and \<^verbatim>\<open>size_\<close> of the source are the
  fields \<open>m_buffer\<close>, \<open>m_capacity\<close>, \<open>m_data\<close> and \<open>m_size\<close> (a name cannot end in an
  underscore here). The null pointer of an empty \<^verbatim>\<open>RawMemory\<close> is the empty buffer.
\<close>

record 'a RawMemory =
  m_buffer :: "'a slot list"
  m_capacity :: nat

text \<open>
  \<^verbatim>\<open>Allocate(n)\<close> asks \<^verbatim>\<open>operator new\<close> for \<^verbatim>\<open>n * sizeof(T)\<close> bytes. The allocator is
  not part of the repository: the request is taken to be served in full, so that the
  buffer has \<open>n\<close> raw slots. A request that the allocator refuses, and a request whose
  byte count does not fit \<^verbatim>\<open>size_t\<close>, are not modelled; \<open>n\<close> is a \<^verbatim>\<open>size_t\<close>, and a
  statement about a capacity that the caller chooses bounds it by \<open>2 ^ 64\<close>.
\<close>

definition Allocate :: "nat \<Rightarrow> 'a slot list" where
  "Allocate n = (if n \<noteq> 0 then replicate n Raw else [])"

definition RawMemory_default :: "'a RawMemory" where
  "RawMemory_default = \<lparr>m_buffer = [], m_capacity = 0\<rparr>"

definition RawMemory_new :: "nat \<Rightarrow> 'a RawMemory" where
  "RawMemory_new capacity = \<lparr>m_buffer = Allocate capacity, m_capacity = capacity\<rparr>"

text \<open>The move constructor: the new object and what is left of \<open>other\<close>.\<close>

definition RawMemory_move :: "'a RawMemory \<Rightarrow> 'a RawMemory \<times> 'a RawMemory" where
  "RawMemory_move other =
     (\<lparr>m_buffer = m_buffer other, m_capacity = m_capacity other\<rparr>,
      other\<lparr>m_buffer := [], m_capacity := 0\<rparr>)"

text \<open>
  Move assignment from another object (the source only ever assigns from temporaries,
  so the test \<^verbatim>\<open>this != &rhs\<close> succeeds): the assigned object and what is left of
  \<open>rhs\<close>. The buffer the assigned object held before is overwritten, not released.
\<close>

definition RawMemory_move_assign ::
  "'a RawMemory \<Rightarrow> 'a RawMemory \<Rightarrow> 'a RawMemory \<times> 'a RawMemory" where
  "RawMemory_move_assign this rhs =
     (this\<lparr>m_buffer := m_buffer rhs, m_capacity := m_capacity rhs\<rparr>,
      rhs\<lparr>m_buffer := [], m_capacity := 0\<rparr>)"

text \<open>
  \<^verbatim>\<open>std::exchange(obj, RawMemory<T>())\<close>: the old value is moved out, the new value is
  move-assigned in. The result is the old value and the object afterwards.
\<close>

definition exchange :: "'a RawMemory \<Rightarrow> 'a RawMemory \<Rightarrow> 'a RawMemory \<times> 'a RawMemory" where
  "exchange obj new_value =
     (let (old_value, obj1) = RawMemory_move obj;
          (obj2, tmp) = RawMemory_move_assign obj1 new_value
      in (old_value, obj2))"


text \<open>\<^verbatim>\<open>a.Swap(b)\<close>: the two objects afterwards.\<close>

definition Swap_raw :: "'a RawMemory \<Rightarrow> 'a RawMemory \<Rightarrow> 'a RawMemory \<times> 'a RawMemory" where
  "Swap_raw a b = (b, a)"

definition Capacity_raw :: "'a RawMemory \<Rightarrow> nat" where
  "Capacity_raw r = m_capacity r"

section \<open>Vector\<close>

record 'a Vector =
  m_data :: "'a RawMemory"
  m_size :: nat

text \<open>
  An iterator is a \<^verbatim>\<open>T*\<close> into the vector's buffer and is given by its offset from
  \<^verbatim>\<open>begin()\<close> as a \<^verbatim>\<open>size_t\<close>, the \<^verbatim>\<open>pos_idx\<close> the source computes first.
\<close>

type_synonym iterator = nat

definition Vector_default :: "'a Vector" where
  "Vector_default = \<lparr>m_data = RawMemory_default, m_size = 0\<rparr>"

definition Size :: "'a Vector \<Rightarrow> nat" where
  "Size v = m_size v"

definition Capacity :: "'a Vector \<Rightarrow> nat" where
  "Capacity v = Capacity_raw (m_data v)"

definition begin_it :: "'a Vector \<Rightarrow> iterator" where
  "begin_it v = 0"

definition end_it :: "'a Vector \<Rightarrow> iterator" where
  "end_it v = m_size v"

definition with_buffer :: "'a Vector \<Rightarrow> 'a slot list \<Rightarrow> 'a Vector" where
  "with_buffer v m = v\<lparr>m_data := (m_data v)\<lparr>m_buffer := m\<rparr>\<rparr>"

text \<open>
  \<^verbatim>\<open>Vector(Vector&& other)\<close>: both members are taken with \<^verbatim>\<open>std::exchange\<close>.
  The result is the new vector and what is left of \<open>other\<close>.
\<close>

definition Vector_move :: "'a Vector \<Rightarrow> 'a Vector \<times> 'a Vector" where
  "Vector_move other =
     (let (d, other_data) = exchange (m_data other) RawMemory_default
      in (\<lparr>m_data = fst (RawMemory_move d), m_size = m_size other\<rparr>,
          other\<lparr>m_data := other_data, m_size := 0\<rparr>))"

text \<open>
  \<^verbatim>\<open>operator=(Vector&& rhs)\<close> compares the addresses of its two operands, so the
  vectors live in a store and the operands are addresses.
\<close>

type_synonym 'a store = "nat \<Rightarrow> 'a Vector"

definition Vector_move_assign :: "'a store \<Rightarrow> nat \<Rightarrow> nat \<Rightarrow> 'a store" where
  "Vector_move_assign h this rhs =
     (if this \<noteq> rhs then
        let (d, rhs_data) = exchange (m_data (h rhs)) RawMemory_default;
            (this_data, tmp) = RawMemory_move_assign (m_data (h this)) d
        in h(rhs := (h rhs)\<lparr>m_data := rhs_data, m_size := 0\<rparr>,
             this := (h this)\<lparr>m_data := this_data, m_size := m_size (h rhs)\<rparr>)
      else h)"

text \<open>
  The relocation of \<^verbatim>\<open>Reserve\<close>. The result is the old buffer and the new buffer
  afterwards: a copy leaves the old buffer as it is, a move leaves moved-from objects.
\<close>

definition UninitializedNewData ::
  "'a T_class \<Rightarrow> 'a Vector \<Rightarrow> 'a RawMemory
     \<Rightarrow> ('a slot list \<times> 'a slot list) error + ('a slot list \<times> 'a slot list)" where
  "UninitializedNewData T v new_data =
     (if nothrow_move_or_no_copy T then
        uninitialized_move_n T (m_buffer (m_data v)) 0 (m_size v) (m_buffer new_data) 0
      else
        unwind (Pair (m_buffer (m_data v)))
          (and_then
             (uninitialized_copy_n T (m_buffer (m_data v)) 0 (m_size v) (m_buffer new_data) 0)
             (\<lambda>new. Inr (m_buffer (m_data v), new))))"

definition Reserve :: "'a T_class \<Rightarrow> 'a Vector \<Rightarrow> nat \<Rightarrow> 'a Vector error + 'a Vector" where
  "Reserve T v new_capacity =
     (if new_capacity \<le> Capacity_raw (m_data v) then Inr v
      else
        let new_data = RawMemory_new new_capacity in
        unwind (\<lambda>(old, new). with_buffer v old)
          (and_then (UninitializedNewData T v new_data) (\<lambda>(old, new).
           and_then (destroy_n old 0 (m_size v)) (\<lambda>old'.
           Inr (v\<lparr>m_data :=
                  fst (Swap_raw ((m_data v)\<lparr>m_buffer := old'\<rparr>)
                         (new_data\<lparr>m_buffer := new\<rparr>))\<rparr>)))))"

definition Resize :: "'a T_class \<Rightarrow> 'a Vector \<Rightarrow> nat \<Rightarrow> 'a Vector error + 'a Vector" where
  "Resize T v new_size =
     (if new_size > Capacity_raw (m_data v) then
        and_then (Reserve T v new_size) (\<lambda>v1.
        unwind (with_buffer v1)
          (and_then
             (uninitialized_value_construct_n T (m_buffer (m_data v1)) 0
                (size_t (int new_size - int (m_size v1))))
             (\<lambda>m. Inr ((with_buffer v1 m)\<lparr>m_size := new_size\<rparr>))))
      else
        and_then
          (destroy_n (m_buffer (m_data v)) (int new_size) (size_t (int (m_size v) - int new_size)))
          (\<lambda>m. Inr ((with_buffer v m)\<lparr>m_size := new_size\<rparr>)))"


text \<open>
  In \<^verbatim>\<open>Emplace\<close> and its two helpers \<open>args\<close> is the outcome of
  \<^verbatim>\<open>T(std::forward<Args>(args)...)\<close>: the object built, or \<open>None\<close> when the
  constructor throws.
\<close>

definition InsertWithoutAlloc ::
  "'a T_class \<Rightarrow> 'a Vector \<Rightarrow> nat \<Rightarrow> 'a option \<Rightarrow> 'a Vector error + 'a Vector" where
  "InsertWithoutAlloc T v pos_idx args =
     (let m = m_buffer (m_data v); e = int (m_size v) in
      if m_size v = pos_idx then
        (if \<not> valid_ptr m (int pos_idx) then Inl Undefined_Behaviour
         else case args of
           None \<Rightarrow> Inl (Thrown v)
         | Some x \<Rightarrow>
             if \<not> in_buf m (int pos_idx) then Inl Undefined_Behaviour
             else Inr (with_buffer v (m[pos_idx := Obj x])))
      else
        (case args of
           None \<Rightarrow> Inl (Thrown v)
         | Some tmp \<Rightarrow>
             (case load m (e - 1) of
                None \<Rightarrow> Inl Undefined_Behaviour
              | Some l \<Rightarrow>
                  if \<not> valid_ptr m e then Inl Undefined_Behaviour
                  else if move_throws T l then Inl (Thrown v)
                  else if \<not> in_buf m e then Inl Undefined_Behaviour
                  else
                    and_then
                      (std_move_backward T
                         (m[nat e := Obj l, nat (e - 1) := Obj (moved_from T l)])
                         (int pos_idx) (e - 1) e)
                      (\<lambda>m1.
                         if \<not> pos_idx < m_capacity (m_data v) then Inl Assertion_Failed
                         else if load m1 (int pos_idx) = None then Inl Undefined_Behaviour
                         else Inr (with_buffer v (m1[pos_idx := Obj tmp]))))))"

definition InsertWithAlloc ::
  "'a T_class \<Rightarrow> 'a Vector \<Rightarrow> iterator \<Rightarrow> nat \<Rightarrow> 'a option \<Rightarrow> 'a Vector error + 'a Vector" where
  "InsertWithAlloc T v pos pos_idx args =
     (let count_prev = size_t (int pos - int (begin_it v));
          count_next = size_t (int (end_it v) - int pos);
          new_data = RawMemory_new (if m_size v = 0 then 1 else size_t (2 * int (m_size v)));
          old = m_buffer (m_data v)
      in
      if \<not> valid_ptr (m_buffer new_data) (int pos_idx) then Inl Undefined_Behaviour
      else case args of
        None \<Rightarrow> Inl (Thrown v)
      | Some x \<Rightarrow>
          if \<not> in_buf (m_buffer new_data) (int pos_idx) then Inl Undefined_Behaviour
          else
          and_then
            (if nothrow_move_or_no_copy T then
               and_then
                 (try_catch
                    (uninitialized_move_n T old 0 count_prev
                       ((m_buffer new_data)[pos_idx := Obj x]) 0)
                    (\<lambda>(old', new'). and_then (destroy_n old' 0 count_prev)
                                      (\<lambda>old''. Inr (old'', new'))))
                 (\<lambda>(old1, new1).
                    try_catch
                      (uninitialized_move_n T old1 (int count_prev) count_next
                         new1 (int count_prev + 1))
                      (\<lambda>(old', new'). and_then (destroy_n old' (int count_prev) count_next)
                                        (\<lambda>old''. Inr (old'', new'))))
             else
               and_then
                 (try_catch
                    (and_then
                       (uninitialized_copy_n T old 0 count_prev
                          ((m_buffer new_data)[pos_idx := Obj x]) 0)
                       (\<lambda>new'. Inr (old, new')))
                    (\<lambda>new'. and_then (destroy_n old 0 count_prev)
                              (\<lambda>old''. Inr (old'', new'))))
                 (\<lambda>(old1, new1).
                    try_catch
                      (and_then
                         (uninitialized_copy_n T old1 (int count_prev) count_next
                            new1 (int count_prev + 1))
                         (\<lambda>new'. Inr (old1, new')))
                      (\<lambda>new'. and_then (destroy_n old1 (int count_prev) count_next)
                                (\<lambda>old''. Inr (old'', new')))))
            (\<lambda>(old2, new2).
               and_then (destroy_n old2 0 (m_size v))
                 (\<lambda>old3. Inr (v\<lparr>m_data :=
                                fst (Swap_raw ((m_data v)\<lparr>m_buffer := old3\<rparr>)
                                       (new_data\<lparr>m_buffer := new2\<rparr>))\<rparr>))))"

definition Emplace ::
  "'a T_class \<Rightarrow> 'a Vector \<Rightarrow> iterator \<Rightarrow> 'a option
     \<Rightarrow> 'a Vector error + ('a Vector \<times> iterator)" where
  "Emplace T v pos args =
     (let pos_idx = size_t (int pos - int (begin_it v)) in
      and_then
        (if m_size v = Capacity v then InsertWithAlloc T v pos pos_idx args
         else InsertWithoutAlloc T v pos_idx args)
        (\<lambda>v'. Inr (v'\<lparr>m_size := size_t (int (m_size v') + 1)\<rparr>, begin_it v' + pos_idx)))"

text \<open>
  \<^verbatim>\<open>EmplaceBack\<close> returns a reference to the new element: the iterator that
  \<^verbatim>\<open>Emplace\<close> returned is the result.
\<close>

definition EmplaceBack ::
  "'a T_class \<Rightarrow> 'a Vector \<Rightarrow> 'a option \<Rightarrow> 'a Vector error + ('a Vector \<times> iterator)" where
  "EmplaceBack T v args = Emplace T v (end_it v) args"

text \<open>
  \<^verbatim>\<open>PushBack\<close> and \<^verbatim>\<open>Insert\<close> hand a value to \<^verbatim>\<open>Emplace\<close>, which builds the element
  with the copy constructor (\<^verbatim>\<open>const T&\<close>) or the move constructor (\<^verbatim>\<open>T&&\<close>).
\<close>

definition copy_of :: "'a T_class \<Rightarrow> 'a \<Rightarrow> 'a option" where
  "copy_of T x = (if copy_throws T x then None else Some x)"

definition move_of :: "'a T_class \<Rightarrow> 'a \<Rightarrow> 'a option" where
  "move_of T x = (if move_throws T x then None else Some x)"

definition PushBack :: "'a T_class \<Rightarrow> 'a Vector \<Rightarrow> 'a \<Rightarrow> 'a Vector error + 'a Vector" where
  "PushBack T v x = and_then (EmplaceBack T v (copy_of T x)) (\<lambda>(v', r). Inr v')"


definition Insert ::
  "'a T_class \<Rightarrow> 'a Vector \<Rightarrow> iterator \<Rightarrow> 'a \<Rightarrow> 'a Vector error + ('a Vector \<times> iterator)" where
  "Insert T v pos x = Emplace T v pos (copy_of T x)"

definition Insert_rvalue ::
  "'a T_class \<Rightarrow> 'a Vector \<Rightarrow> iterator \<Rightarrow> 'a \<Rightarrow> 'a Vector error + ('a Vector \<times> iterator)" where
  "Insert_rvalue T v pos x = Emplace T v pos (move_of T x)"

definition Erase ::
  "'a T_class \<Rightarrow> 'a Vector \<Rightarrow> iterator \<Rightarrow> 'a Vector error + ('a Vector \<times> iterator)" where
  "Erase T v pos =
     (let pos_idx = size_t (int pos - int (begin_it v)) in
      and_then
        (std_move T (m_buffer (m_data v)) (int (begin_it v) + int pos_idx + 1) (int (end_it v))
           (int (begin_it v) + int pos_idx))
        (\<lambda>m1.
           and_then (destroy_n m1 (int (end_it v) - 1) 1)
             (\<lambda>m2. Inr ((with_buffer v m2)\<lparr>m_size := size_t (int (m_size v) - 1)\<rparr>,
                         begin_it v + pos_idx))))"


section \<open>The class invariant and the element sequence\<close>

definition is_Obj :: "'a slot \<Rightarrow> bool" where
  "is_Obj s = (case s of Raw \<Rightarrow> False | Obj x \<Rightarrow> True)"

text \<open>The slots \<open>[0, size)\<close>: the element sequence of the vector.\<close>

definition elements :: "'a Vector \<Rightarrow> 'a slot list" where
  "elements v = take (m_size v) (m_buffer (m_data v))"

text \<open>
  The invariant of the data model: the buffer has \<open>capacity\<close> slots, a \<^verbatim>\<open>size_t\<close>
  number of them, the first \<open>size\<close> slots hold live objects and the others are raw.
\<close>

definition Vector_inv :: "'a Vector \<Rightarrow> bool" where
  "Vector_inv v \<longleftrightarrow>
     m_capacity (m_data v) = length (m_buffer (m_data v)) \<and>
     m_capacity (m_data v) < 2 ^ 64 \<and>
     m_size v \<le> m_capacity (m_data v) \<and>
     list_all is_Obj (take (m_size v) (m_buffer (m_data v))) \<and>
     list_all (\<lambda>s. s = Raw) (drop (m_size v) (m_buffer (m_data v)))"

text \<open>No constructor of \<open>T\<close> throws on an object held in these slots.\<close>

definition nothrow_on :: "'a T_class \<Rightarrow> 'a slot list \<Rightarrow> bool" where
  "nothrow_on T m =
     list_all (\<lambda>s. case s of Raw \<Rightarrow> True | Obj x \<Rightarrow> \<not> copy_throws T x \<and> \<not> move_throws T x) m"

text \<open>The vector that holds the objects \<open>xs\<close> and has \<open>k\<close> raw slots left.\<close>

definition vec :: "'a list \<Rightarrow> nat \<Rightarrow> 'a Vector" where
  "vec xs k =
     \<lparr>m_data = \<lparr>m_buffer = map Obj xs @ replicate k Raw, m_capacity = length xs + k\<rparr>,
      m_size = length xs\<rparr>"

text \<open>
  The vector with every object \<open>x\<close> replaced by \<open>f x\<close>, slot by slot. A function on
  vectors that commutes with every such relabelling builds no object and looks into none.
\<close>

definition relabel :: "('a \<Rightarrow> 'b) \<Rightarrow> 'a Vector \<Rightarrow> 'b Vector" where
  "relabel f v =
     \<lparr>m_data = \<lparr>m_buffer = map (map_slot f) (m_buffer (m_data v)),
                m_capacity = m_capacity (m_data v)\<rparr>,
      m_size = m_size v\<rparr>"

subsection \<open>Two element types for the concrete runs\<close>

text \<open>
  \<open>T_int\<close> behaves like \<^verbatim>\<open>int\<close>: nothing throws, a moved-from object keeps its value.
  \<open>T_throwing\<close> is a class without a move constructor of its own whose copy constructor
  throws on the value 2, so that the \<^verbatim>\<open>if constexpr\<close> takes the copying branch.
\<close>

definition T_int :: "int T_class" where
  "T_int =
     \<lparr>value_init = Some 0, copy_throws = (\<lambda>x. False), move_throws = (\<lambda>x. False),
      moved_from = (\<lambda>x. x), nothrow_move_or_no_copy = True\<rparr>"

definition T_throwing :: "int T_class" where
  "T_throwing =
     \<lparr>value_init = Some 0, copy_throws = (\<lambda>x. x = 2), move_throws = (\<lambda>x. x = 2),
      moved_from = (\<lambda>x. x), nothrow_move_or_no_copy = False\<rparr>"

section \<open>Lemmas on the memory primitives and the operations\<close>



lemma size_t_nat: "n < 2 ^ 64 \<Longrightarrow> size_t (int n) = n"
  by (simp add: size_t_def)

lemma load_nat:
  "load m (int i) = (if i < length m then (case m ! i of Raw \<Rightarrow> None | Obj x \<Rightarrow> Some x) else None)"
  by (simp add: load_def in_buf_def)


lemma in_buf_nat: "in_buf m (int i) \<longleftrightarrow> i < length m"
  by (simp add: in_buf_def)

lemma valid_ptr_nat: "valid_ptr m (int i) \<longleftrightarrow> i \<le> length m"
  by (simp add: valid_ptr_def)


lemma destroy_n_Objs:
  "(destroy_n (A @ map Obj xs @ B) (int (length A)) (length xs) :: 's error + 'a slot list)
     = Inr (A @ replicate (length xs) Raw @ B)"
proof (induction xs arbitrary: A)
  case Nil
  then show ?case by simp
next
  case (Cons x xs)
  have "(destroy_n ((A @ [Raw]) @ map Obj xs @ B) (int (length (A @ [Raw]))) (length xs)
           :: 's error + 'a slot list)
          = Inr ((A @ [Raw]) @ replicate (length xs) Raw @ B)"
    by (rule Cons.IH)
  then show ?case
    by (simp add: load_nat nth_append list_update_append replicate_app_Cons_same add.commute)
qed

lemma destroy_n_out:
  "0 < n \<Longrightarrow> int (length m) < p + int n \<or> p < 0
     \<Longrightarrow> (destroy_n m p n :: 's error + 'a slot list) = Inl Undefined_Behaviour"
proof (induction n arbitrary: m p)
  case 0
  then show ?case by simp
next
  case (Suc n)
  show ?case
  proof (cases "load m p")
    case None
    then show ?thesis by simp
  next
    case (Some x)
    then have inb: "0 \<le> p" "p < int (length m)"
      by (auto simp: load_def in_buf_def split: if_splits)
    with Suc.prems have "0 < n" "int (length (m[nat p := Raw])) < (p + 1) + int n"
      by auto
    then have "(destroy_n (m[nat p := Raw]) (p + 1) n :: 's error + 'a slot list)
                 = Inl Undefined_Behaviour"
      using Suc.IH by blast
    with Some show ?thesis by simp
  qed
qed


lemma uninitialized_copy_n_ok:
  "list_all (\<lambda>x. \<not> copy_throws T x) xs \<Longrightarrow> length D = length xs \<Longrightarrow>
   uninitialized_copy_n T (A @ map Obj xs @ B) (int (length A)) (length xs)
     (C @ D @ E) (int (length C)) = Inr (C @ map Obj xs @ E)"
proof (induction xs arbitrary: A C D)
  case Nil
  then show ?case by simp
next
  case (Cons x xs)
  then obtain d D' where D: "D = d # D'" "length D' = length xs"
    by (cases D) auto
  have "uninitialized_copy_n T ((A @ [Obj x]) @ map Obj xs @ B) (int (length (A @ [Obj x])))
          (length xs) ((C @ [Obj x]) @ D' @ E) (int (length (C @ [Obj x])))
        = Inr ((C @ [Obj x]) @ map Obj xs @ E)"
    using Cons.prems D by (intro Cons.IH) auto
  with Cons.prems D show ?case
    by (simp add: load_nat in_buf_nat valid_ptr_nat nth_append list_update_append add.commute)
qed

lemma uninitialized_move_n_ok:
  "list_all (\<lambda>x. \<not> move_throws T x) xs \<Longrightarrow> length D = length xs \<Longrightarrow>
   uninitialized_move_n T (A @ map Obj xs @ B) (int (length A)) (length xs)
     (C @ D @ E) (int (length C))
   = Inr (A @ map (\<lambda>x. Obj (moved_from T x)) xs @ B, C @ map Obj xs @ E)"
proof (induction xs arbitrary: A C D)
  case Nil
  then show ?case by simp
next
  case (Cons x xs)
  then obtain d D' where D: "D = d # D'" "length D' = length xs"
    by (cases D) auto
  have "uninitialized_move_n T ((A @ [Obj (moved_from T x)]) @ map Obj xs @ B)
          (int (length (A @ [Obj (moved_from T x)])))
          (length xs) ((C @ [Obj x]) @ D' @ E) (int (length (C @ [Obj x])))
        = Inr ((A @ [Obj (moved_from T x)]) @ map (\<lambda>x. Obj (moved_from T x)) xs @ B,
               (C @ [Obj x]) @ map Obj xs @ E)"
    using Cons.prems D by (intro Cons.IH) auto
  with Cons.prems D show ?case
    by (simp add: load_nat in_buf_nat valid_ptr_nat nth_append list_update_append add.commute)
qed

lemma uninitialized_value_construct_n_ok:
  "value_init T = Some d \<Longrightarrow> length D = n \<Longrightarrow>
   uninitialized_value_construct_n T (C @ D @ E) (int (length C)) n
   = Inr (C @ replicate n (Obj d) @ E)"
proof (induction n arbitrary: C D)
  case 0
  then show ?case by simp
next
  case (Suc n)
  then obtain y D' where D: "D = y # D'" "length D' = n"
    by (cases D) auto
  have "uninitialized_value_construct_n T ((C @ [Obj d]) @ D' @ E) (int (length (C @ [Obj d]))) n
        = Inr ((C @ [Obj d]) @ replicate n (Obj d) @ E)"
    using Suc.prems D by (intro Suc.IH) auto
  with Suc.prems D show ?case
    by (simp add: in_buf_nat valid_ptr_nat list_update_append add.commute)
qed



lemma move_n_step:
  "(move_n T m (int f) (Suc n) (int d) :: 's error + 'a slot list) =
     (case load m (int f) of
        None \<Rightarrow> Inl Undefined_Behaviour
      | Some x \<Rightarrow>
          if load m (int d) = None then Inl Undefined_Behaviour
          else move_n T (m[d := Obj x, f := Obj (moved_from T x)]) (int (Suc f)) n (int (Suc d)))"
proof -
  have a: "int (Suc f) = int f + 1" "int (Suc d) = int d + 1"
    by simp_all
  show ?thesis
    by (simp only: a move_n.simps nat_int)
qed

lemma move_backward_n_step:
  "(move_backward_n T m (int (Suc l)) (Suc n) (int (Suc d)) :: 's error + 'a slot list) =
     (case load m (int l) of
        None \<Rightarrow> Inl Undefined_Behaviour
      | Some x \<Rightarrow>
          if load m (int d) = None then Inl Undefined_Behaviour
          else move_backward_n T (m[d := Obj x, l := Obj (moved_from T x)]) (int l) n (int d))"
proof -
  have a: "int (Suc l) - 1 = int l" "int (Suc d) - 1 = int d"
    by simp_all
  show ?thesis
    by (simp only: a move_backward_n.simps nat_int)
qed

lemma move_n_shift_left:
  "(move_n T (A @ Obj z # map Obj ys @ B) (int (Suc (length A))) (length ys) (int (length A))
      :: 's error + 'a slot list)
   = Inr (A @ map Obj ys @ (if ys = [] then Obj z else Obj (moved_from T (last ys))) # B)"
proof (induction ys arbitrary: A z)
  case Nil
  then show ?case by simp
next
  case (Cons y ys)
  let ?m = "A @ Obj z # map Obj (y # ys) @ B"
  let ?A = "A @ [Obj y]"
  have ih: "(move_n T (?A @ Obj (moved_from T y) # map Obj ys @ B)
          (int (Suc (length ?A))) (length ys) (int (length ?A))
          :: 's error + 'a slot list)
        = Inr (?A @ map Obj ys @
               (if ys = [] then Obj (moved_from T y) else Obj (moved_from T (last ys))) # B)"
    by (rule Cons.IH)
  have l1: "load ?m (int (Suc (length A))) = Some y"
    by (simp only: load_nat) (simp add: nth_append)
  have l2: "load ?m (int (length A)) = Some z"
    by (simp only: load_nat) (simp add: nth_append)
  have upd: "?m[length A := Obj y, Suc (length A) := Obj (moved_from T y)]
             = ?A @ Obj (moved_from T y) # map Obj ys @ B"
    by (simp add: list_update_append)
  have len: "length (y # ys) = Suc (length ys)" "Suc (length A) = length ?A"
    by simp_all
  have "(move_n T ?m (int (Suc (length A))) (length (y # ys)) (int (length A))
          :: 's error + 'a slot list)
        = move_n T (?A @ Obj (moved_from T y) # map Obj ys @ B)
            (int (Suc (length ?A))) (length ys) (int (length ?A))"
    by (simp only: len(1) move_n_step l1 l2 upd option.case option.distinct if_False)
       (simp only: len(2))
  also note ih
  finally show ?case by simp
qed

lemma move_backward_n_shift_right:
  "(move_backward_n T (A @ map Obj ys @ Obj z # B) (int (length A + length ys)) (length ys)
      (int (Suc (length A + length ys))) :: 's error + 'a slot list)
   = Inr (A @ (if ys = [] then Obj z else Obj (moved_from T (hd ys))) # map Obj ys @ B)"
proof (induction ys arbitrary: z B rule: rev_induct)
  case Nil
  then show ?case by simp
next
  case (snoc y ys)
  let ?m = "A @ map Obj (ys @ [y]) @ Obj z # B"
  have ih: "(move_backward_n T (A @ map Obj ys @ Obj (moved_from T y) # Obj y # B)
          (int (length A + length ys)) (length ys) (int (Suc (length A + length ys)))
          :: 's error + 'a slot list)
        = Inr (A @ (if ys = [] then Obj (moved_from T y) else Obj (moved_from T (hd ys)))
                 # map Obj ys @ Obj y # B)"
    by (rule snoc.IH)
  have l1: "load ?m (int (length A + length ys)) = Some y"
    by (simp only: load_nat) (simp add: nth_append)
  have l2: "load ?m (int (Suc (length A + length ys))) = Some z"
    by (simp only: load_nat) (simp add: nth_append)
  have upd: "?m[Suc (length A + length ys) := Obj y,
                length A + length ys := Obj (moved_from T y)]
             = A @ map Obj ys @ Obj (moved_from T y) # Obj y # B"
    by (simp add: list_update_append)
  have len: "length A + Suc (length ys) = Suc (length A + length ys)"
            "length (ys @ [y]) = Suc (length ys)" by simp_all
  have "(move_backward_n T ?m (int (length A + length (ys @ [y]))) (length (ys @ [y]))
          (int (Suc (length A + length (ys @ [y])))) :: 's error + 'a slot list)
        = move_backward_n T (A @ map Obj ys @ Obj (moved_from T y) # Obj y # B)
          (int (length A + length ys)) (length ys) (int (Suc (length A + length ys)))"
    by (simp only: len move_backward_n_step l1 l2 upd option.case option.distinct if_False)
  also note ih
  finally show ?case by (simp add: hd_append)
qed



lemma all_Obj_map: "list_all is_Obj ys \<Longrightarrow> \<exists>xs. ys = map Obj xs"
proof (induction ys)
  case Nil
  then show ?case by simp
next
  case (Cons s ys)
  then obtain xs where "ys = map Obj xs" by auto
  moreover from Cons.prems obtain x where "s = Obj x"
    by (cases s) (auto simp: is_Obj_def)
  ultimately have "s # ys = map Obj (x # xs)" by simp
  then show ?case by (rule exI)
qed

lemma all_Raw_replicate: "list_all (\<lambda>s. s = Raw) ys \<Longrightarrow> ys = replicate (length ys) Raw"
  by (induction ys) auto

lemma Vector_inv_vec: "Vector_inv v \<longleftrightarrow> (\<exists>xs k. v = vec xs k \<and> length xs + k < 2 ^ 64)"
proof
  assume i: "Vector_inv v"
  let ?b = "m_buffer (m_data v)"
  from i obtain xs where xs: "take (m_size v) ?b = map Obj xs"
    unfolding Vector_inv_def using all_Obj_map by blast
  from i have "drop (m_size v) ?b = replicate (length (drop (m_size v) ?b)) Raw"
    unfolding Vector_inv_def using all_Raw_replicate by blast
  then have dr: "drop (m_size v) ?b = replicate (length ?b - m_size v) Raw"
    by simp
  from i have le: "m_size v \<le> length ?b" and cap: "m_capacity (m_data v) = length ?b"
    and bound: "length ?b < 2 ^ 64"
    unfolding Vector_inv_def by auto
  from xs le have len: "length xs = m_size v"
    by (metis length_map length_take min.absorb2)
  have "?b = map Obj xs @ replicate (length ?b - m_size v) Raw"
    using xs dr append_take_drop_id [of "m_size v" ?b] by simp
  then have "v = vec xs (length ?b - m_size v)"
    using len cap le by (simp add: vec_def)
  moreover have "length xs + (length ?b - m_size v) < 2 ^ 64"
    using len le bound by simp
  ultimately show "\<exists>xs k. v = vec xs k \<and> length xs + k < 2 ^ 64" by blast
next
  assume "\<exists>xs k. v = vec xs k \<and> length xs + k < 2 ^ 64"
  then obtain xs k where "v = vec xs k" "length xs + k < 2 ^ 64" by blast
  then show "Vector_inv v"
    by (simp add: Vector_inv_def vec_def list_all_iff is_Obj_def)
qed

lemma elements_vec: "elements (vec xs k) = map Obj xs"
  by (simp add: elements_def vec_def)

lemma nothrow_on_map:
  "nothrow_on T (map Obj xs) \<longleftrightarrow>
     list_all (\<lambda>x. \<not> copy_throws T x) xs \<and> list_all (\<lambda>x. \<not> move_throws T x) xs"
  by (auto simp: nothrow_on_def list_all_iff)


lemmas copy0 = uninitialized_copy_n_ok [where A = "[]" and C = "[]", simplified]
lemmas move0 = uninitialized_move_n_ok [where A = "[]" and C = "[]", simplified]
lemmas destroy0 = destroy_n_Objs [where A = "[]", simplified]


lemma destroy_n_Objs_f:
  "(destroy_n (A @ map (\<lambda>x. Obj (f x)) xs @ B) (int (length A)) (length xs)
      :: 's error + 'a slot list)
     = Inr (A @ replicate (length xs) Raw @ B)"
  using destroy_n_Objs [of A "map f xs" B] by (simp add: comp_def)

lemmas destroy0_f = destroy_n_Objs_f [where A = "[]", simplified]





lemma size_t_diff: "b \<le> a \<Longrightarrow> a < 2 ^ 64 \<Longrightarrow> size_t (int a - int b) = a - b"
proof -
  assume le: "b \<le> a" and lt: "a < 2 ^ 64"
  from le have "int a - int b = int (a - b)" by simp
  moreover from lt have "a - b < 2 ^ 64" by simp
  ultimately show ?thesis by (simp only: size_t_nat)
qed

lemma size_t_pred: "0 < a \<Longrightarrow> a < 2 ^ 64 \<Longrightarrow> size_t (int a - 1) = a - 1"
  using size_t_diff [of 1 a] by simp

lemma size_t_succ: "a + 1 < 2 ^ 64 \<Longrightarrow> size_t (int a + 1) = a + 1"
  using size_t_nat [of "a + 1"] by (simp add: add.commute)

lemma Erase_vec:
  assumes pos: "pos < length xs" and b: "length xs + k < 2 ^ 64"
  shows "Erase T (vec xs k) pos = Inr (vec (take pos xs @ drop (Suc pos) xs) (Suc k), pos)"
proof -
  define ys where "ys = take pos xs"
  define z where "z = xs ! pos"
  define ws where "ws = drop (Suc pos) xs"
  define R where "R = replicate k (Raw :: 'a slot)"
  have xs: "xs = ys @ z # ws"
    using pos by (simp add: ys_def z_def ws_def id_take_nth_drop)
  have lys: "length ys = pos" using pos by (simp add: ys_def)
  let ?m = "map Obj ys @ Obj z # map Obj ws @ R"
  let ?l = "if ws = [] then Obj z else Obj (moved_from T (last ws))"
  have buf: "m_buffer (m_data (vec xs k)) = ?m" and sz: "m_size (vec xs k) = length xs"
    by (simp_all add: vec_def xs R_def)
  have idx: "size_t (int pos) = pos"
    using pos b by (simp add: size_t_nat)
  have sz': "size_t (int (length xs) - 1) = length xs - 1"
    using pos b by (intro size_t_pred) auto
  let ?p = "int (length (map Obj ys))"
  let ?p1 = "int (Suc (length (map Obj ys)))"
  let ?e = "int (length xs)"
  let ?e1 = "int (length (map Obj ys @ map Obj ws))"
  have unf: "Erase T (vec xs k) pos =
      and_then (std_move T ?m ?p1 ?e ?p)
        (\<lambda>m1. and_then (destroy_n m1 ?e1 1)
           (\<lambda>m2. Inr ((with_buffer (vec xs k) m2)\<lparr>m_size := length xs - 1\<rparr>, pos)))"
    unfolding Erase_def Let_def begin_it_def end_it_def buf sz
    by (simp add: idx sz' lys del: destroy_n.simps)
       (simp add: xs lys add.commute del: destroy_n.simps)
  have n: "nat (?e - ?p1) = length ws" "\<not> ?e < ?p1"
    by (simp_all add: xs)
  have mv: "(std_move T ?m ?p1 ?e ?p :: 'a Vector error + 'a slot list)
            = Inr (map Obj ys @ map Obj ws @ ?l # R)"
    by (simp only: std_move_def n if_False) (rule move_n_shift_left)
  have ds: "(destroy_n (map Obj ys @ map Obj ws @ ?l # R) ?e1 1
              :: 'a Vector error + 'a slot list)
            = Inr (map Obj ys @ map Obj ws @ Raw # R)"
    using destroy_n_Objs_f [of "map Obj ys @ map Obj ws" "\<lambda>x. x"
        "[if ws = [] then z else moved_from T (last ws)]" R]
    by (simp split: if_splits)
  have "Erase T (vec xs k) pos =
          Inr ((with_buffer (vec xs k) (map Obj ys @ map Obj ws @ Raw # R))
                 \<lparr>m_size := length xs - 1\<rparr>, pos)"
    by (simp only: unf mv and_then_def sum.case ds)
  also have "(with_buffer (vec xs k) (map Obj ys @ map Obj ws @ Raw # R))
                 \<lparr>m_size := length xs - 1\<rparr> = vec (ys @ ws) (Suc k)"
    by (simp add: with_buffer_def vec_def xs R_def)
  finally show ?thesis
    by (simp only: ys_def ws_def)
qed




lemma InsertWithoutAlloc_end:
  "InsertWithoutAlloc T (vec xs (Suc k)) (length xs) (Some x)
     = Inr ((vec (xs @ [x]) k)\<lparr>m_size := length xs\<rparr>)"
  by (simp add: InsertWithoutAlloc_def vec_def valid_ptr_nat in_buf_nat with_buffer_def
      list_update_append)

lemma InsertWithoutAlloc_mid:
  assumes pos: "pos < length xs" and nt: "\<not> move_throws T (last xs)"
  shows "InsertWithoutAlloc T (vec xs (Suc k)) pos (Some x)
     = Inr ((vec (take pos xs @ x # drop pos xs) k)\<lparr>m_size := length xs\<rparr>)"
proof -
  define ys where "ys = take pos xs"
  define zs where "zs = butlast (drop pos xs)"
  define l where "l = last xs"
  define R where "R = replicate k (Raw :: 'a slot)"
  from pos have ne: "drop pos xs \<noteq> []" by simp
  then have dr: "drop pos xs = zs @ [l]"
    unfolding zs_def l_def using pos by (metis append_butlast_last_id last_drop)
  have xs: "xs = ys @ zs @ [l]"
    using dr append_take_drop_id [of pos xs] by (simp add: ys_def)
  have lys: "length ys = pos" using pos by (simp add: ys_def)
  have lxs: "length xs = Suc (pos + length zs)" using xs lys by simp
  let ?v = "vec xs (Suc k)"
  let ?m = "map Obj ys @ map Obj zs @ Obj l # Raw # R"
  let ?m1 = "map Obj ys @ map Obj zs @ Obj (moved_from T l) # Obj l # R"
  let ?h = "if zs = [] then Obj (moved_from T l) else Obj (moved_from T (hd zs))"
  let ?m2 = "map Obj ys @ ?h # map Obj zs @ Obj l # R"
  let ?e = "int (length xs)"
  let ?e1 = "int (length (map Obj ys) + length zs)"
  have buf: "m_buffer (m_data ?v) = ?m" and sz: "m_size ?v = length xs"
    and cap: "m_capacity (m_data ?v) = Suc (length xs + k)"
    by (simp_all add: vec_def xs R_def)
  have e1: "?e - 1 = ?e1" by (simp add: lxs lys)
  have ld: "load ?m ?e1 = Some l"
    by (simp only: load_nat) (simp add: nth_append)
  have vp: "valid_ptr ?m ?e" "in_buf ?m ?e"
    by (simp_all only: valid_ptr_nat in_buf_nat) (simp_all add: lxs lys)
  have up: "?m[nat ?e := Obj l, nat ?e1 := Obj (moved_from T l)] = ?m1"
    by (simp only: nat_int) (simp add: lxs lys list_update_append)
  have n: "\<not> ?e1 < int pos" "nat (?e1 - int pos) = length zs"
    "int (length xs) = int (Suc (length (map Obj ys) + length zs))"
    by (simp_all add: lys lxs)
  have mb: "(std_move_backward T ?m1 (int pos) ?e1 ?e :: 'a Vector error + 'a slot list)
              = Inr ?m2"
    by (simp only: std_move_backward_def n if_False) (rule move_backward_n_shift_right)
  have ld2: "load ?m2 (int pos) \<noteq> None"
    by (simp only: load_nat) (simp add: nth_append lys)
  have up2: "?m2[pos := Obj x] = map Obj ys @ Obj x # map Obj zs @ Obj l # R"
    by (simp add: list_update_append lys)
  have asrt: "pos < m_capacity (m_data ?v)"
    using pos cap by simp
  have ne': "m_size ?v \<noteq> pos" using pos sz by simp
  have "InsertWithoutAlloc T ?v pos (Some x)
          = Inr (with_buffer ?v (map Obj ys @ Obj x # map Obj zs @ Obj l # R))"
    unfolding InsertWithoutAlloc_def Let_def sz buf
    using nt pos
    by (simp only: e1 ld vp up mb ld2 up2 asrt and_then_def sum.case option.case if_False
          if_True not_True_eq_False not_False_eq_True l_def [symmetric] refl cap)
       (simp add: cap)
  also have "with_buffer ?v (map Obj ys @ Obj x # map Obj zs @ Obj l # R)
               = (vec (ys @ x # zs @ [l]) k)\<lparr>m_size := length xs\<rparr>"
    by (simp add: with_buffer_def vec_def R_def xs)
  finally show ?thesis
    by (simp only: dr [symmetric] ys_def)
qed




lemma replicate_update:
  "i < n \<Longrightarrow> (replicate n a)[i := b] = replicate i a @ b # replicate (n - i - 1) a"
proof (induction n arbitrary: i)
  case 0
  then show ?case by simp
next
  case (Suc n)
  then show ?case by (cases i) auto
qed

lemma InsertWithAlloc_vec:
  assumes pos: "pos \<le> length xs" and nt: "nothrow_on T (map Obj xs)"
    and b: "2 * length xs < 2 ^ 64"
  shows "InsertWithAlloc T (vec xs 0) pos pos (Some x)
     = Inr ((vec (take pos xs @ x # drop pos xs) (max 1 (2 * length xs) - length xs - 1))
              \<lparr>m_size := length xs\<rparr>)"
proof -
  define ys where "ys = take pos xs"
  define zs where "zs = drop pos xs"
  define N where "N = max 1 (2 * length xs)"
  define R where "R = replicate (N - length xs - 1) (Raw :: 'a slot)"
  define mf where "mf = (\<lambda>x. Obj (moved_from T x))"
  have xs: "xs = ys @ zs" by (simp add: ys_def zs_def)
  have lys: "length ys = pos" using pos by (simp add: ys_def)
  have lxs: "length xs = pos + length zs" using xs lys by simp
  from nt have "list_all (\<lambda>x. \<not> copy_throws T x) (ys @ zs)"
    "list_all (\<lambda>x. \<not> move_throws T x) (ys @ zs)"
    unfolding nothrow_on_map xs by simp_all
  then have c: "list_all (\<lambda>x. \<not> copy_throws T x) ys" "list_all (\<lambda>x. \<not> copy_throws T x) zs"
    and m: "list_all (\<lambda>x. \<not> move_throws T x) ys" "list_all (\<lambda>x. \<not> move_throws T x) zs"
    by simp_all
  let ?v = "vec xs 0"
  let ?old = "map Obj ys @ map Obj zs"
  let ?D = "replicate (length zs) (Raw :: 'a slot)"
  let ?new0 = "replicate (length ys) Raw @ Obj x # ?D @ R"
  let ?new1 = "map Obj ys @ Obj x # ?D @ R"
  let ?new2 = "map Obj ys @ Obj x # map Obj zs @ R"
  have Nval: "(if length xs = 0 then 1 else size_t (2 * int (length xs))) = N"
    using b size_t_nat [of "2 * length xs"] by (cases xs) (auto simp: N_def max_def)
  have Nsplit: "N = pos + (1 + (length zs + (N - length xs - 1)))"
  proof -
    have "length xs < N" unfolding N_def by (cases "length xs") auto
    with lxs show ?thesis by linarith
  qed
  have nb: "m_buffer (RawMemory_new N :: 'a RawMemory) = replicate N Raw"
    by (simp add: RawMemory_new_def Allocate_def)
  have nb0: "(replicate N Raw)[pos := Obj x] = ?new0"
  proof -
    have "pos < N" and "N - pos - 1 = length zs + (N - length xs - 1)"
      using Nsplit by linarith+
    then show ?thesis
      by (simp only: replicate_update replicate_add lys R_def)
  qed
  have vp: "valid_ptr (replicate N (Raw :: 'a slot)) (int pos)"
    "in_buf (replicate N (Raw :: 'a slot)) (int pos)"
    using Nsplit by (simp_all only: valid_ptr_nat in_buf_nat) simp_all
  have cp: "size_t (int pos - int (begin_it ?v)) = pos"
    using b pos by (simp add: begin_it_def size_t_nat)
  have cn: "size_t (int (end_it ?v) - int pos) = length zs"
    using size_t_diff [of pos "length xs"] b pos lxs by (simp add: end_it_def vec_def)
  have old: "m_buffer (m_data ?v) = ?old" and sz: "m_size ?v = length xs"
    by (simp_all add: vec_def xs)
  have p1: "int pos + 1 = int (length (map Obj ys @ [Obj x]))"
    "int pos = int (length (map Obj ys))" "int pos = int (length (map mf ys))"
    by (simp_all add: lys)
  have c1: "uninitialized_copy_n T ?old 0 pos ?new0 0 = Inr ?new1"
    using copy0 [OF c(1), of "replicate (length ys) Raw" "map Obj zs" "Obj x # ?D @ R"]
    by (simp add: lys)
  have c2: "uninitialized_copy_n T ?old (int pos) (length zs) ?new1 (int pos + 1) = Inr ?new2"
    unfolding p1(1)
    using uninitialized_copy_n_ok [OF c(2), of ?D "map Obj ys" "[]" "map Obj ys @ [Obj x]" R]
    by (simp add: lys)
  have m1: "uninitialized_move_n T ?old 0 pos ?new0 0 = Inr (map mf ys @ map Obj zs, ?new1)"
    using move0 [OF m(1), of "replicate (length ys) Raw" "map Obj zs" "Obj x # ?D @ R"]
    by (simp add: lys mf_def)
  have m2: "uninitialized_move_n T (map mf ys @ map Obj zs) (int pos) (length zs) ?new1
              (int pos + 1) = Inr (map mf ys @ map mf zs, ?new2)"
    unfolding p1(1)
    using uninitialized_move_n_ok [OF m(2), of ?D "map mf ys" "[]" "map Obj ys @ [Obj x]" R]
    by (simp add: lys mf_def)
  have d1: "(destroy_n ?old 0 (length xs) :: 'a Vector error + 'a slot list)
              = Inr (replicate (length xs) Raw)"
    using destroy0 [of xs "[]"] by (simp add: xs)
  have d2: "(destroy_n (map mf ys @ map mf zs) 0 (length xs) :: 'a Vector error + 'a slot list)
              = Inr (replicate (length xs) Raw)"
    using destroy0_f [of "moved_from T" xs "[]"] by (simp add: xs mf_def)
  have "InsertWithAlloc T ?v pos pos (Some x)
          = Inr (?v\<lparr>m_data := (RawMemory_new N)\<lparr>m_buffer := ?new2\<rparr>\<rparr>)"
  proof (cases "nothrow_move_or_no_copy T")
    case True
    show ?thesis
      unfolding InsertWithAlloc_def Let_def cp cn old sz Nval nb
      by (simp only: True vp nb0 m1 m2 d2 and_then_def try_catch_def sum.case option.case
            if_False if_True prod.case error.case simp_thms Swap_raw_def fst_conv)
  next
    case False
    show ?thesis
      unfolding InsertWithAlloc_def Let_def cp cn old sz Nval nb
      by (simp only: False vp nb0 c1 c2 d1 and_then_def try_catch_def sum.case option.case
            if_False if_True prod.case error.case simp_thms Swap_raw_def fst_conv)
  qed
  also have "?v\<lparr>m_data := (RawMemory_new N)\<lparr>m_buffer := ?new2\<rparr>\<rparr>
               = (vec (ys @ x # zs) (N - length xs - 1))\<lparr>m_size := length xs\<rparr>"
    using Nsplit by (simp add: vec_def RawMemory_new_def R_def lxs lys)
  finally show ?thesis
    by (simp only: ys_def zs_def N_def)
qed




lemma Emplace_vec:
  assumes pos: "pos \<le> length xs" and nt: "nothrow_on T (map Obj xs)"
    and b: "length xs + k < 2 ^ 64" and g: "k = 0 \<longrightarrow> 2 * length xs < 2 ^ 64"
  shows "Emplace T (vec xs k) pos (Some x)
     = Inr (vec (take pos xs @ x # drop pos xs)
              (if k = 0 then max 1 (2 * length xs) - length xs - 1 else k - 1), pos)"
proof -
  let ?xs' = "take pos xs @ x # drop pos xs"
  have idx: "\<And>v :: 'a Vector. size_t (int pos - int (begin_it v)) = pos"
    using pos b by (simp add: begin_it_def size_t_nat)
  have sz: "\<And>j. m_size (vec xs j) = length xs"
    and cap: "\<And>j. Capacity (vec xs j) = length xs + j"
    by (simp_all add: vec_def Capacity_def Capacity_raw_def)
  have inc: "size_t (int (length xs) + 1) = length ?xs'"
  proof -
    have "length xs + 1 < 2 ^ 64"
      using b g by (cases "k = 0"; cases "length xs") auto
    then show ?thesis using pos by (simp add: size_t_succ)
  qed
  have fin: "\<And>j. and_then (Inr ((vec ?xs' j)\<lparr>m_size := length xs\<rparr>))
                 (\<lambda>v'. Inr (v'\<lparr>m_size := size_t (int (m_size v') + 1)\<rparr>, begin_it v' + pos))
               = Inr (vec ?xs' j, pos)"
    by (simp add: and_then_def begin_it_def inc del: length_append) (simp add: vec_def)
  show ?thesis
  proof (cases k)
    case 0
    with g have "2 * length xs < 2 ^ 64" by simp
    from InsertWithAlloc_vec [OF pos nt this, of x]
    have ins: "InsertWithAlloc T (vec xs 0) pos pos (Some x)
                 = Inr ((vec ?xs' (max 1 (2 * length xs) - length xs - 1))
                          \<lparr>m_size := length xs\<rparr>)" .
    show ?thesis
      unfolding 0
      by (simp only: Emplace_def Let_def idx sz cap ins fin add_0_right if_True refl)
  next
    case (Suc k')
    have ins: "InsertWithoutAlloc T (vec xs (Suc k')) pos (Some x)
                 = Inr ((vec ?xs' k')\<lparr>m_size := length xs\<rparr>)"
    proof (cases "pos = length xs")
      case True
      then show ?thesis using InsertWithoutAlloc_end [of T xs k' x] by simp
    next
      case False
      with pos have lt: "pos < length xs" by simp
      then have "last xs \<in> set xs" by (cases xs) auto
      with nt have "\<not> move_throws T (last xs)"
        by (auto simp: nothrow_on_map list_all_iff)
      with lt show ?thesis by (rule InsertWithoutAlloc_mid)
    qed
    have ne: "length xs \<noteq> length xs + Suc k'" by simp
    show ?thesis
      unfolding Suc
      by (simp only: Emplace_def Let_def idx sz cap ins fin ne if_False nat.distinct
            diff_Suc_1)
  qed
qed
















lemma vec_sel:
  "m_size (vec xs k) = length xs"
  "m_buffer (m_data (vec xs k)) = map Obj xs @ replicate k Raw"
  "Capacity (vec xs k) = length xs + k"
  "Size (vec xs k) = length xs"
  by (simp_all add: vec_def Capacity_def Capacity_raw_def Size_def)

lemma vec_Vector_inv: "length xs + k < 2 ^ 64 \<Longrightarrow> Vector_inv (vec xs k)"
  unfolding Vector_inv_vec by blast

lemma vec_nth: "i < length xs \<Longrightarrow> m_buffer (m_data (vec xs k)) ! i = Obj (xs ! i)"
  by (simp add: vec_def nth_append)

lemma vec_nth_Raw:
  "length xs \<le> i \<Longrightarrow> i < length xs + k \<Longrightarrow> m_buffer (m_data (vec xs k)) ! i = Raw"
  by (simp add: vec_def nth_append)

lemma Emplace_inv:
  assumes i: "Vector_inv v" and pos: "pos \<le> Size v"
    and g: "Size v = Capacity v \<longrightarrow> 2 * Size v < 2 ^ 64"
    and nt: "nothrow_on T (elements v)"
  obtains xs k k' where "v = vec xs k" "length xs + k < 2 ^ 64" "pos \<le> length xs"
    "Emplace T v pos (Some x) = Inr (vec (take pos xs @ x # drop pos xs) k', pos)"
    "length xs + 1 + k' = (if k = 0 then max 1 (2 * length xs) else length xs + k)"
    "length xs + 1 + k' < 2 ^ 64"
proof -
  from i obtain xs k where v: "v = vec xs k" and b: "length xs + k < 2 ^ 64"
    by (auto simp: Vector_inv_vec)
  from pos have p: "pos \<le> length xs" by (simp add: v vec_sel)
  from g have g': "k = 0 \<longrightarrow> 2 * length xs < 2 ^ 64" by (simp add: v vec_sel)
  from nt have nt': "nothrow_on T (map Obj xs)" by (simp add: v elements_vec)
  define k' where "k' = (if k = 0 then max 1 (2 * length xs) - length xs - 1 else k - 1)"
  have e: "Emplace T v pos (Some x) = Inr (vec (take pos xs @ x # drop pos xs) k', pos)"
    unfolding v k'_def using p nt' b g' by (rule Emplace_vec)
  have c: "length xs + 1 + k' = (if k = 0 then max 1 (2 * length xs) else length xs + k)"
    unfolding k'_def by (cases "length xs") (auto simp: max_def)
  have "length xs + 1 + k' < 2 ^ 64"
    unfolding c using b g' by (cases "length xs") (auto simp: max_def)
  with v b p e c show thesis by (rule that)
qed

lemma Erase_inv:
  assumes i: "Vector_inv v" and pos: "pos < Size v"
  obtains xs k where "v = vec xs k" "pos < length xs" "length xs + k < 2 ^ 64"
    "Erase T v pos = Inr (vec (take pos xs @ drop (Suc pos) xs) (Suc k), pos)"
proof -
  from i obtain xs k where v: "v = vec xs k" and b: "length xs + k < 2 ^ 64"
    by (auto simp: Vector_inv_vec)
  from pos have p: "pos < length xs" by (simp add: v vec_sel)
  have "Erase T v pos = Inr (vec (take pos xs @ drop (Suc pos) xs) (Suc k), pos)"
    unfolding v using p b by (rule Erase_vec)
  with v p b show thesis by (rule that)
qed

lemma destroy_n_not_Thrown: "destroy_n m p n \<noteq> Inl (Thrown s)"
  by (induction n arbitrary: m p) (auto split: option.splits)

lemma and_then_not_Thrown:
  assumes "\<And>t. r \<noteq> Inl (Thrown t)" and "\<And>x t. f x \<noteq> Inl (Thrown t)"
  shows "and_then r f \<noteq> Inl (Thrown s)"
  using assms by (cases r) (auto simp: and_then_def)

lemma try_catch_not_Thrown:
  assumes "\<And>st t. handler st \<noteq> Inl (Thrown t)"
  shows "try_catch body handler \<noteq> Inl (Thrown s)"
proof (cases body)
  case (Inl e)
  with assms show ?thesis by (cases e) (auto simp: try_catch_def)
next
  case (Inr x)
  then show ?thesis by (simp add: try_catch_def)
qed

lemma handler_not_Thrown:
  "(case st of (old', new') \<Rightarrow> and_then (destroy_n old' p n) (\<lambda>old''. Inr (old'', new')))
     \<noteq> Inl (Thrown t)"
  by (cases st) (simp add: and_then_not_Thrown destroy_n_not_Thrown)

lemma handler_copy_not_Thrown:
  "and_then (destroy_n old p n) (\<lambda>old''. Inr (old'', new')) \<noteq> Inl (Thrown t)"
  by (simp add: and_then_not_Thrown destroy_n_not_Thrown)

lemma InsertWithAlloc_never_throws:
  "InsertWithAlloc T v pos pos_idx (Some x) \<noteq> Inl (Thrown s)"
proof -
  have fin: "(case st of (old2, new2) \<Rightarrow>
               and_then (destroy_n old2 0 (m_size v))
                 (\<lambda>old3. Inr (v\<lparr>m_data := fst (Swap_raw ((m_data v)\<lparr>m_buffer := old3\<rparr>)
                                              (nd\<lparr>m_buffer := new2\<rparr>))\<rparr>)))
             \<noteq> Inl (Thrown t)" for st :: "'a slot list \<times> 'a slot list" and nd t
    by (cases st) (simp add: and_then_not_Thrown destroy_n_not_Thrown)
  have snd_m: "(case st of (old1, new1) \<Rightarrow>
                 try_catch (uninitialized_move_n T old1 p n new1 q)
                   (\<lambda>(old', new'). and_then (destroy_n old' p n) (\<lambda>old''. Inr (old'', new'))))
               \<noteq> Inl (Thrown t)" for st :: "'a slot list \<times> 'a slot list" and p n q
      and t :: "'a Vector"
    by (cases st) (simp add: try_catch_not_Thrown handler_not_Thrown)
  have snd_c: "(case st of (old1, new1) \<Rightarrow>
                 try_catch (and_then (uninitialized_copy_n T old1 p n new1 q)
                              (\<lambda>new'. Inr (old1, new')))
                   (\<lambda>new'. and_then (destroy_n old1 p n) (\<lambda>old''. Inr (old'', new'))))
               \<noteq> Inl (Thrown t)" for st :: "'a slot list \<times> 'a slot list" and p n q
      and t :: "'a Vector"
    by (cases st) (simp add: try_catch_not_Thrown handler_copy_not_Thrown)
  show ?thesis
    unfolding InsertWithAlloc_def Let_def
    by (simp add: and_then_not_Thrown try_catch_not_Thrown handler_not_Thrown
        handler_copy_not_Thrown fin snd_m snd_c)
qed












lemma Vector_move_assign_self: "Vector_move_assign h this this = h"
  by (simp add: Vector_move_assign_def)




text \<open>
  Insertion when no relocation throws. On a vector that satisfies the invariant, for a
  position \<open>pos \<le> size\<close>, when no constructor throws on an element held by the vector
  and the doubled capacity fits in \<^verbatim>\<open>size_t\<close>, \<^verbatim>\<open>Emplace\<close> and both overloads of
  \<^verbatim>\<open>Insert\<close> return the iterator \<^verbatim>\<open>begin() + pos\<close>, whose slot holds the new element;
  the elements formerly at \<open>[pos, size)\<close> are at \<open>[pos + 1, size + 1)\<close>, the elements
  before \<open>pos\<close> are where they were and the size has grown by one. \<^verbatim>\<open>Erase\<close> at the
  returned iterator then gives back the element sequence the vector had.
\<close>

lemma Emplace_inserts_nothrow:
  assumes "Vector_inv v" and "pos \<le> Size v"
    and "Size v = Capacity v \<longrightarrow> 2 * Size v < 2 ^ 64"
    and "nothrow_on T (elements v)"
  shows "\<exists>v'. Emplace T v pos (Some x) = Inr (v', pos) \<and>
           (\<not> copy_throws T x \<longrightarrow> Insert T v pos x = Inr (v', pos)) \<and>
           (\<not> move_throws T x \<longrightarrow> Insert_rvalue T v pos x = Inr (v', pos)) \<and>
           Size v' = Size v + 1 \<and>
           m_buffer (m_data v') ! (begin_it v' + pos) = Obj x \<and>
           (\<forall>i. pos \<le> i \<and> i < Size v \<longrightarrow>
                m_buffer (m_data v') ! (i + 1) = m_buffer (m_data v) ! i) \<and>
           (\<forall>i < pos. m_buffer (m_data v') ! i = m_buffer (m_data v) ! i) \<and>
           elements v' = take pos (elements v) @ Obj x # drop pos (elements v) \<and>
           Vector_inv v'"
proof -
  from assms obtain xs k k' where v: "v = vec xs k" and p: "pos \<le> length xs"
    and e: "Emplace T v pos (Some x) = Inr (vec (take pos xs @ x # drop pos xs) k', pos)"
    and b': "length xs + 1 + k' < 2 ^ 64"
    by (rule Emplace_inv)
  let ?xs' = "take pos xs @ x # drop pos xs"
  let ?v' = "vec ?xs' k'"
  have len: "length ?xs' = length xs + 1" using p by simp
  have at_pos: "m_buffer (m_data ?v') ! (begin_it ?v' + pos) = Obj x"
    using p by (simp add: begin_it_def vec_nth nth_append)
  have after: "m_buffer (m_data ?v') ! (i + 1) = m_buffer (m_data v) ! i"
    if "pos \<le> i \<and> i < Size v" for i
  proof -
    from that have i: "pos \<le> i" "i < length xs" by (simp_all add: v vec_sel)
    then have "?xs' ! (i + 1) = xs ! i"
      using p by (simp add: nth_append min_def Suc_diff_le)
    moreover have "i + 1 < length ?xs'" using i p by simp
    ultimately show ?thesis
      using i unfolding v by (simp only: vec_nth)
  qed
  have before: "m_buffer (m_data ?v') ! i = m_buffer (m_data v) ! i" if "i < pos" for i
    using that p unfolding v by (simp add: vec_nth nth_append)
  have el: "elements ?v' = take pos (elements v) @ Obj x # drop pos (elements v)"
    by (simp add: v elements_vec take_map drop_map)
  have iv: "Vector_inv ?v'"
    using b' len by (intro vec_Vector_inv) simp
  have sz: "Size ?v' = Size v + 1"
    using len by (simp add: v vec_sel del: length_append)
  show ?thesis
    using e at_pos after before el iv sz
    by (intro exI [of _ ?v']) (simp add: Insert_def Insert_rvalue_def copy_of_def move_of_def)
qed

lemma Insert_then_Erase_nothrow:
  assumes "Vector_inv v" and "pos \<le> Size v"
    and "Size v = Capacity v \<longrightarrow> 2 * Size v < 2 ^ 64"
    and "nothrow_on T (elements v)" and "\<not> copy_throws T x"
  shows "\<exists>v1 it v2 it'. Insert T v pos x = Inr (v1, it) \<and> Erase T v1 it = Inr (v2, it') \<and>
           elements v2 = elements v \<and> Size v2 = Size v \<and>
           Emplace T v pos (Some x) = Inr (v1, it) \<and>
           (\<not> move_throws T x \<longrightarrow> Insert_rvalue T v pos x = Inr (v1, it))"
proof -
  from assms(1-4) obtain xs k k' where v: "v = vec xs k" and p: "pos \<le> length xs"
    and e: "Emplace T v pos (Some x) = Inr (vec (take pos xs @ x # drop pos xs) k', pos)"
    and b': "length xs + 1 + k' < 2 ^ 64"
    by (rule Emplace_inv)
  let ?xs' = "take pos xs @ x # drop pos xs"
  have p': "pos < length ?xs'" and bb: "length ?xs' + k' < 2 ^ 64"
    using p b' by simp_all
  have restored: "take pos ?xs' @ drop (Suc pos) ?xs' = xs"
    using p by simp
  from Erase_vec [OF p' bb, of T]
  have er: "Erase T (vec ?xs' k') pos = Inr (vec xs (Suc k'), pos)"
    by (simp only: restored)
  from e assms(5) have ins: "Insert T v pos x = Inr (vec ?xs' k', pos)"
    by (simp add: Insert_def copy_of_def)
  show ?thesis
    using ins er e
    by (intro exI [of _ "vec ?xs' k'"] exI [of _ pos] exI [of _ "vec xs (Suc k')"])
       (simp add: v elements_vec vec_sel Insert_rvalue_def move_of_def)
qed

section \<open>The claims\<close>

text \<open>
  C1 does not hold of the code. Two calls of \<^verbatim>\<open>PushBack\<close> on an empty vector give the
  vector that holds 1, 2 in a buffer of capacity 2. \<^verbatim>\<open>Resize(4)\<close> on it value-constructs
  the two new elements at slots 0 and 1 (the call passes \<^verbatim>\<open>data_.GetAddress()\<close>, not
  \<^verbatim>\<open>data_.GetAddress() + size_\<close>): the elements 1 and 2 are overwritten and the slots 2
  and 3 stay raw while the size becomes 4. After \<^verbatim>\<open>Reserve(4)\<close> instead, \<^verbatim>\<open>Resize(3)\<close>
  takes the shrinking branch, where \<^verbatim>\<open>size_ - new_size\<close> wraps around and
  \<^verbatim>\<open>std::destroy_n\<close> runs off the live elements.
\<close>

theorem Resize_loses_elements:
  "and_then (PushBack T_int Vector_default 1) (\<lambda>v. PushBack T_int v 2) = Inr (vec [1, 2] 0) \<and>
   Resize T_int (vec [1, 2] 0) 4 =
     Inr \<lparr>m_data = \<lparr>m_buffer = [Obj 0, Obj 0, Raw, Raw], m_capacity = 4\<rparr>, m_size = 4\<rparr> \<and>
   Reserve T_int (vec [1, 2] 0) 4 = Inr (vec [1, 2] 2) \<and>
   Resize T_int (vec [1, 2] 2) 3 = Inl Undefined_Behaviour"
proof (intro conjI)
  show "and_then (PushBack T_int Vector_default 1) (\<lambda>v. PushBack T_int v 2)
          = Inr (vec [1, 2] 0)"
    by code_simp
  show "Resize T_int (vec [1, 2] 0) 4 =
     Inr \<lparr>m_data = \<lparr>m_buffer = [Obj 0, Obj 0, Raw, Raw], m_capacity = 4\<rparr>, m_size = 4\<rparr>"
    by code_simp
  show "Reserve T_int (vec [1, 2] 0) 4 = Inr (vec [1, 2] 2)"
    by code_simp
  show "Resize T_int (vec [1, 2] 2) 3 = Inl Undefined_Behaviour"
    by (simp add: Resize_def Capacity_raw_def vec_def and_then_def size_t_def destroy_n_out)
qed

text \<open>
  C2 does not hold of the code. Let the copy constructor throw on the value 2 and let
  two calls of \<^verbatim>\<open>EmplaceBack\<close> build the full vector that holds 1, 2. \<^verbatim>\<open>Emplace\<close> into
  it does not end in the exception, at the middle position or at the end: the
  \<^verbatim>\<open>catch (...)\<close> block destroys elements of the old buffer and does not rethrow, and
  the \<^verbatim>\<open>std::destroy_n(begin(), size_)\<close> that follows destroys them a second time.
  \<^verbatim>\<open>Reserve\<close>, which relocates the same way without a \<^verbatim>\<open>catch\<close>, lets the exception
  out and leaves the vector as it was. In general, once the new element is built,
  \<^verbatim>\<open>InsertWithAlloc\<close> never ends in an exception.
\<close>

theorem Emplace_swallows_exception:
  "and_then (EmplaceBack T_throwing Vector_default (Some 1))
     (\<lambda>(v, r). EmplaceBack T_throwing v (Some 2)) = Inr (vec [1, 2] 0, 1) \<and>
   Emplace T_throwing (vec [1, 2] 0) 1 (Some 9) = Inl Undefined_Behaviour \<and>
   Emplace T_throwing (vec [1, 2] 0) 2 (Some 9) = Inl Undefined_Behaviour \<and>
   Reserve T_throwing (vec [1, 2] 0) 4 = Inl (Thrown (vec [1, 2] 0)) \<and>
   (\<forall>T (v :: 'a Vector) pos pos_idx x s.
      InsertWithAlloc T v pos pos_idx (Some x) \<noteq> Inl (Thrown s))"
proof (intro conjI allI)
  show "and_then (EmplaceBack T_throwing Vector_default (Some 1))
     (\<lambda>(v, r). EmplaceBack T_throwing v (Some 2)) = Inr (vec [1, 2] 0, 1)"
    by code_simp
  show "Emplace T_throwing (vec [1, 2] 0) 1 (Some 9) = Inl Undefined_Behaviour"
    by code_simp
  show "Emplace T_throwing (vec [1, 2] 0) 2 (Some 9) = Inl Undefined_Behaviour"
    by code_simp
  show "Reserve T_throwing (vec [1, 2] 0) 4 = Inl (Thrown (vec [1, 2] 0))"
    by code_simp
  show "InsertWithAlloc T v pos pos_idx (Some x) \<noteq> Inl (Thrown s)"
    for T and v :: "'a Vector" and pos pos_idx x s
    by (rule InsertWithAlloc_never_throws)
qed

text \<open>
  C3 does not hold of the code. The full vector that holds 1, 2 and the position 1
  (or 0) meet all that the claim asks for, and the copy of the new element 9 is built.
  When the copy constructor throws on the value 2 while \<^verbatim>\<open>InsertWithAlloc\<close> relocates
  the old elements, the \<^verbatim>\<open>catch (...)\<close> block destroys the old elements and does not
  rethrow; \<^verbatim>\<open>std::destroy_n(begin(), size_)\<close> then destroys them a second time, which is
  undefined behaviour, and the insertion goes on with the element 2 missing from the new
  buffer. This is the defect of C2, seen from the caller of \<^verbatim>\<open>Insert\<close>.
\<close>

theorem Insert_loses_element:
  "Vector_inv (vec [1, 2 :: int] 0) \<and> 1 \<le> Size (vec [1, 2 :: int] 0) \<and>
   copy_of T_throwing 9 = Some 9 \<and>
   Insert T_throwing (vec [1, 2] 0) 1 9 = Inl Undefined_Behaviour \<and>
   Insert T_throwing (vec [1, 2] 0) 0 9 = Inl Undefined_Behaviour"
proof (intro conjI)
  show "Vector_inv (vec [1, 2 :: int] 0)" by (simp add: vec_Vector_inv)
  show "1 \<le> Size (vec [1, 2 :: int] 0)" by (simp add: vec_sel)
  show "copy_of T_throwing 9 = Some 9" by (simp add: copy_of_def T_throwing_def)
  show "Insert T_throwing (vec [1, 2] 0) 1 9 = Inl Undefined_Behaviour" by code_simp
  show "Insert T_throwing (vec [1, 2] 0) 0 9 = Inl Undefined_Behaviour" by code_simp
qed

text \<open>
  C4. On a vector that satisfies the invariant, for \<open>pos < size\<close>, \<^verbatim>\<open>Erase(pos)\<close> returns
  a vector whose size is one less, in which the elements formerly at \<open>[pos + 1, size)\<close>
  are at \<open>[pos, size - 1)\<close>, the elements before \<open>pos\<close> are where they were, and the last
  slot formerly in use, \<open>size - 1\<close>, is destroyed (raw).
\<close>

theorem Erase_shifts_left:
  assumes "Vector_inv v" and "pos < Size v"
  shows "\<exists>v' r. Erase T v pos = Inr (v', r) \<and>
           Size v' = Size v - 1 \<and>
           (\<forall>i. pos \<le> i \<and> i < Size v - 1 \<longrightarrow>
                m_buffer (m_data v') ! i = m_buffer (m_data v) ! (i + 1)) \<and>
           (\<forall>i < pos. m_buffer (m_data v') ! i = m_buffer (m_data v) ! i) \<and>
           m_buffer (m_data v') ! (Size v - 1) = Raw \<and>
           Capacity v' = Capacity v \<and>
           elements v' = take pos (elements v) @ drop (Suc pos) (elements v) \<and>
           Vector_inv v'"
proof -
  from assms obtain xs k where v: "v = vec xs k" and p: "pos < length xs"
    and b: "length xs + k < 2 ^ 64"
    and e: "Erase T v pos = Inr (vec (take pos xs @ drop (Suc pos) xs) (Suc k), pos)"
    by (rule Erase_inv)
  let ?xs' = "take pos xs @ drop (Suc pos) xs"
  let ?v' = "vec ?xs' (Suc k)"
  have len: "length ?xs' = length xs - 1" using p by simp
  have after: "m_buffer (m_data ?v') ! i = m_buffer (m_data v) ! (i + 1)"
    if "pos \<le> i \<and> i < Size v - 1" for i
  proof -
    from that have i: "pos \<le> i" "i < length xs - 1" by (simp_all add: v vec_sel)
    then have "?xs' ! i = xs ! (i + 1)"
      using p by (simp add: nth_append min_def)
    moreover have "i < length ?xs'" "i + 1 < length xs" using i len by simp_all
    ultimately show ?thesis
      unfolding v by (simp only: vec_nth)
  qed
  have before: "m_buffer (m_data ?v') ! i = m_buffer (m_data v) ! i" if "i < pos" for i
    using that p unfolding v by (simp add: vec_nth nth_append)
  have lst: "m_buffer (m_data ?v') ! (Size v - 1) = Raw"
    using p len unfolding v by (intro vec_nth_Raw) (simp_all add: vec_sel del: length_append)
  have cap: "Capacity ?v' = Capacity v"
    using p len by (simp add: v vec_sel del: length_append)
  have el: "elements ?v' = take pos (elements v) @ drop (Suc pos) (elements v)"
    by (simp add: v elements_vec take_map drop_map)
  have iv: "Vector_inv ?v'"
    using b p len by (intro vec_Vector_inv) (simp del: length_append)
  have sz: "Size ?v' = Size v - 1"
    using len by (simp add: v vec_sel del: length_append)
  show ?thesis
    using e after before lst cap el iv sz
    by (intro exI [of _ ?v'] exI [of _ pos]) simp
qed

theorem Erase_shifts_left_witness:
  "Vector_inv (vec [1, 2, 3 :: int] 1) \<and> 0 < Size (vec [1, 2, 3 :: int] 1) \<and>
   (\<exists>v' r. Erase T_int (vec [1, 2, 3] 1) 0 = Inr (v', r) \<and> Size v' = 2 \<and>
         elements v' = [Obj 2, Obj 3] \<and> m_buffer (m_data v') ! 2 = Raw)"
proof -
  have h: "Vector_inv (vec [1, 2, 3 :: int] 1)" "0 < Size (vec [1, 2, 3 :: int] 1)"
    by (simp_all add: vec_Vector_inv vec_sel)
  from Erase_shifts_left [OF h, of T_int] h show ?thesis
    by (auto simp: vec_sel elements_vec numeral_2_eq_2 numeral_3_eq_3)
qed

text \<open>
  C5 does not hold of the code. On the full vector that holds 1, 2, with a copy
  constructor that throws on the value 2, \<^verbatim>\<open>Insert\<close> of 9 at the position 1 does not
  return a vector from which \<^verbatim>\<open>Erase\<close> could restore the sequence 1, 2: the relocation of
  the element 2 fails, the exception is swallowed and the old elements are destroyed
  twice. This is the defect of C2 and C3 again.
\<close>

theorem Insert_then_Erase_fails:
  "Vector_inv (vec [1, 2 :: int] 0) \<and> 1 \<le> Size (vec [1, 2 :: int] 0) \<and>
   copy_of T_throwing 9 = Some 9 \<and>
   and_then (Insert T_throwing (vec [1, 2] 0) 1 9) (\<lambda>(v1, it). Erase T_throwing v1 it)
     = Inl Undefined_Behaviour \<and>
   \<not> (\<exists>v1 it v2 it'. Insert T_throwing (vec [1, 2] 0) 1 9 = Inr (v1, it) \<and>
          Erase T_throwing v1 it = Inr (v2, it') \<and> elements v2 = elements (vec [1, 2] 0))"
proof -
  have i: "Insert T_throwing (vec [1, 2] 0) 1 9 = Inl Undefined_Behaviour" by code_simp
  have c: "copy_of T_throwing 9 = Some 9" by (simp add: copy_of_def T_throwing_def)
  show ?thesis
    unfolding i c by (simp add: and_then_def vec_Vector_inv vec_sel)
qed





text \<open>
  C8. The move constructor, and the move assignment from its source to a destination
  (two objects, \<open>this \<noteq> rhs\<close>), leave the source with size 0 and an empty buffer of
  capacity 0. The destination has the source's former size and holds the source's former
  buffer itself, hence the same elements, and no other vector of the store changes. No
  element is copied: neither function is given a constructor of \<open>T\<close>, and both commute
  with every relabelling of the objects, so that every object of the result is the object
  the source held in that slot, and the source holds none afterwards.
\<close>

theorem move_empties_source:
  "(case Vector_move other of
      (new, other') \<Rightarrow>
        Size other' = 0 \<and> Capacity other' = 0 \<and> m_buffer (m_data other') = [] \<and>
        Size new = Size other \<and> m_data new = m_data other \<and>
        elements new = elements other) \<and>
   (this \<noteq> rhs \<longrightarrow>
      (let h' = Vector_move_assign h this rhs
       in Size (h' rhs) = 0 \<and> Capacity (h' rhs) = 0 \<and> m_buffer (m_data (h' rhs)) = [] \<and>
          Size (h' this) = Size (h rhs) \<and> m_data (h' this) = m_data (h rhs) \<and>
          elements (h' this) = elements (h rhs) \<and>
          (\<forall>a. a \<noteq> this \<and> a \<noteq> rhs \<longrightarrow> h' a = h a))) \<and>
   Vector_move (relabel f other) =
     (relabel f (fst (Vector_move other)), relabel f (snd (Vector_move other))) \<and>
   Vector_move_assign (\<lambda>a. relabel f (h a)) this rhs =
     (\<lambda>a. relabel f (Vector_move_assign h this rhs a))"
  by (simp add: Vector_move_def Vector_move_assign_def exchange_def RawMemory_move_def
      RawMemory_move_assign_def RawMemory_default_def Size_def Capacity_def Capacity_raw_def
      elements_def Let_def relabel_def fun_eq_iff)

theorem move_empties_source_witness:
  "(0 :: nat) \<noteq> 1 \<and>
   Size (Vector_move_assign (\<lambda>a. if a = 1 then vec [1, 2, 3 :: int] 0 else Vector_default) 0 1 1) = 0 \<and>
   Capacity (Vector_move_assign (\<lambda>a. if a = 1 then vec [1, 2, 3 :: int] 0 else Vector_default) 0 1 1) = 0 \<and>
   elements (Vector_move_assign (\<lambda>a. if a = 1 then vec [1, 2, 3 :: int] 0 else Vector_default) 0 1 0)
     = [Obj 1, Obj 2, Obj 3] \<and>
   m_buffer (m_data (Vector_move_assign
       (\<lambda>a. if a = 1 then vec [1, 2, 3 :: int] 1 else Vector_default) 0 1 0))
     = [Obj 1, Obj 2, Obj 3, Raw]"
proof -
  let ?h = "\<lambda>a :: nat. if a = 1 then vec [1, 2, 3 :: int] 0 else Vector_default"
  let ?g = "\<lambda>a :: nat. if a = 1 then vec [1, 2, 3 :: int] 1 else Vector_default"
  have h: "(0 :: nat) \<noteq> 1" by simp
  from move_empties_source [where other = "vec [1, 2, 3 :: int] 0" and this = 0 and rhs = 1
      and h = ?h and f = id] h
  have a: "Size (Vector_move_assign ?h 0 1 1) = 0" "Capacity (Vector_move_assign ?h 0 1 1) = 0"
    "Size (Vector_move_assign ?h 0 1 0) = Size (?h 1)"
    "m_data (Vector_move_assign ?h 0 1 0) = m_data (?h 1)"
    by (simp_all add: Let_def)
  from move_empties_source [where other = "vec [1, 2, 3 :: int] 0" and this = 0 and rhs = 1
      and h = ?g and f = id] h
  have b: "m_data (Vector_move_assign ?g 0 1 0) = m_data (?g 1)"
    by (simp_all add: Let_def)
  from a b show ?thesis
    by (simp add: elements_def Size_def vec_def)
qed




text \<open>
  C10. On a vector that satisfies the invariant, for \<open>pos < size\<close>, \<^verbatim>\<open>Erase(pos)\<close> returns
  the iterator \<^verbatim>\<open>begin() + pos\<close>: it points to the slot that now holds the element that
  followed the erased one, or is \<^verbatim>\<open>end()\<close> when the last element was erased.
\<close>

theorem Erase_returns_position:
  assumes "Vector_inv v" and "pos < Size v"
  shows "\<exists>v'. Erase T v pos = Inr (v', begin_it v' + pos) \<and>
           (pos + 1 < Size v \<longrightarrow>
              m_buffer (m_data v') ! (begin_it v' + pos) = m_buffer (m_data v) ! (pos + 1)) \<and>
           (pos + 1 = Size v \<longrightarrow> begin_it v' + pos = end_it v')"
proof -
  from assms obtain xs k where v: "v = vec xs k" and p: "pos < length xs"
    and e: "Erase T v pos = Inr (vec (take pos xs @ drop (Suc pos) xs) (Suc k), pos)"
    by (rule Erase_inv)
  let ?xs' = "take pos xs @ drop (Suc pos) xs"
  let ?v' = "vec ?xs' (Suc k)"
  have nxt: "m_buffer (m_data ?v') ! (begin_it ?v' + pos) = m_buffer (m_data v) ! (pos + 1)"
    if "pos + 1 < Size v"
    using that p unfolding v by (simp add: vec_sel vec_nth nth_append begin_it_def)
  have lst: "begin_it ?v' + pos = end_it ?v'" if "pos + 1 = Size v"
    using that p by (simp add: v vec_sel begin_it_def end_it_def)
  show ?thesis
    using e nxt lst by (intro exI [of _ ?v']) (simp add: begin_it_def)
qed

theorem Erase_returns_position_witness:
  "Vector_inv (vec [1, 2, 3 :: int] 1) \<and> 1 < Size (vec [1, 2, 3 :: int] 1) \<and>
   (\<exists>v'. Erase T_int (vec [1, 2, 3] 1) 1 = Inr (v', 1) \<and> m_buffer (m_data v') ! 1 = Obj 3)"
proof -
  have h: "Vector_inv (vec [1, 2, 3 :: int] 1)" "1 < Size (vec [1, 2, 3 :: int] 1)"
    by (simp_all add: vec_Vector_inv vec_sel)
  from Erase_returns_position [OF h, of T_int] h show ?thesis
    by (auto simp: vec_sel begin_it_def numeral_2_eq_2 numeral_3_eq_3)
qed

end
